theory Spec2Isabelle
  imports Main
begin

section \<open>The card deck of \<open>notes_data_model.py\<close>\<close>

text \<open>
  The notebook defines a named tuple \<open>Card\<close> with the fields \<open>rank\<close> and \<open>suit\<close>, and a
  class \<open>FrenchDeck\<close> whose constructor fills the attribute \<open>_cards\<close> and whose two
  special methods \<open>__len__\<close> and \<open>__getitem__\<close> delegate to that list. Everything else the
  notebook does with a deck (slicing, \<open>for\<close> loops, \<open>reversed\<close>, \<open>sorted\<close>, \<open>choice\<close>) is the
  interpreter calling these two methods.

  Python strings are modelled as \<open>string\<close>, Python integers as \<open>int\<close>, exceptions as the
  left summand of a sum type.
\<close>

subsection \<open>Exceptions\<close>

datatype error = IndexError | ValueError | KeyError

subsection \<open>Built-ins used by the class body\<close>

text \<open>\<open>str(n)\<close> for an integer: its decimal digits, with a minus sign when negative.\<close>

definition digit_char :: "nat \<Rightarrow> char" where
  "digit_char d = ''0123456789'' ! d"

fun str_nat :: "nat \<Rightarrow> string" where
  "str_nat n = (if n < 10 then [digit_char n] else str_nat (n div 10) @ [digit_char (n mod 10)])"

declare str_nat.simps [simp del]

definition str_int :: "int \<Rightarrow> string" where
  "str_int i = (if i < 0 then CHR ''-'' # str_nat (nat (- i)) else str_nat (nat i))"

text \<open>\<open>range(a, b)\<close>: the integers from \<open>a\<close> up to but excluding \<open>b\<close>.\<close>

definition range2 :: "int \<Rightarrow> int \<Rightarrow> int list" where
  "range2 a b = [a..b - 1]"

text \<open>\<open>list(s)\<close> for a string: its one-character strings.\<close>

definition list_of_str :: "string \<Rightarrow> string list" where
  "list_of_str s = map (\<lambda>c. [c]) s"

text \<open>
  \<open>s.split()\<close> without arguments: the maximal runs of non-whitespace characters, in order;
  no empty strings are produced.
\<close>

definition isspace :: "char \<Rightarrow> bool" where
  "isspace c = (of_char c \<in> ({9, 10, 11, 12, 13, 28, 29, 30, 31, 32, 133, 160} :: nat set))"

fun split_acc :: "string \<Rightarrow> string \<Rightarrow> string list" where
  "split_acc w [] = (if w = [] then [] else [w])"
| "split_acc w (c # cs) =
     (if isspace c then (if w = [] then [] else [w]) @ split_acc [] cs
      else split_acc (w @ [c]) cs)"

definition split :: "string \<Rightarrow> string list" where
  "split s = split_acc [] s"

subsection \<open>\<open>Card\<close> and \<open>FrenchDeck\<close>\<close>

datatype Card = Card (rank: string) (suit: string)

text \<open>The attribute \<open>_cards\<close> is the field \<open>cards\<close>.\<close>

record FrenchDeck =
  cards :: "Card list"

definition ranks :: "string list" where
  "ranks = map str_int (range2 2 11) @ list_of_str ''JQKA''"

definition suits :: "string list" where
  "suits = split ''spades diamonds clubs hearts''"

text \<open>
  \<open>__init__\<close>: the comprehension \<open>[Card(rank, suit) for suit in suits for rank in ranks]\<close>
  has \<open>suit\<close> in the outer loop and \<open>rank\<close> in the inner one.
\<close>

definition FrenchDeck_init :: FrenchDeck where
  "FrenchDeck_init =
     \<lparr>cards = concat (map (\<lambda>suit. map (\<lambda>rank. Card rank suit) ranks) suits)\<rparr>"

subsection \<open>\<open>__len__\<close> and \<open>__getitem__\<close>\<close>

text \<open>
  A position is an integer or a slice object \<open>slice(start, stop, step)\<close> whose three parts
  may each be \<open>None\<close>.
\<close>

datatype position = Index int | Slice "int option" "int option" "int option"

text \<open>Indexing returns one element, slicing a new list.\<close>

datatype 'a item = Item 'a | Items "'a list"

definition len :: "'a list \<Rightarrow> int" where
  "len xs = int (length xs)"

text \<open>
  \<open>xs[i]\<close> for an integer: a negative index has the length added once; what is then
  outside \<open>0 \<le> i < len(xs)\<close> raises \<open>IndexError\<close>.
\<close>

definition normalize :: "int \<Rightarrow> int \<Rightarrow> int" where
  "normalize n i = (if i < 0 then i + n else i)"

definition list_index_item :: "'a list \<Rightarrow> int \<Rightarrow> error + 'a" where
  "list_index_item xs i =
     (let j = normalize (len xs) i
      in if j < 0 \<or> len xs \<le> j then Inl IndexError else Inr (xs ! nat j))"

text \<open>
  \<open>xs[start:stop:step]\<close>: a zero step raises \<open>ValueError\<close>; otherwise the bounds are
  clamped as \<open>slice.indices\<close> does and the selected elements are copied into a new list.
\<close>

definition slice_bound :: "int \<Rightarrow> int \<Rightarrow> int \<Rightarrow> int \<Rightarrow> int option \<Rightarrow> int" where
  "slice_bound n lower upper dflt b =
     (case b of
        None \<Rightarrow> dflt
      | Some v \<Rightarrow>
          if v < 0 then (if v + n < lower then lower else v + n)
          else (if upper < v then upper else v))"

definition slice_indices :: "int \<Rightarrow> int option \<Rightarrow> int option \<Rightarrow> int \<Rightarrow> int \<times> int" where
  "slice_indices n start stop step =
     (let lower = (if step < 0 then - 1 else 0);
          upper = (if step < 0 then n - 1 else n)
      in (slice_bound n lower upper (if step < 0 then upper else lower) start,
          slice_bound n lower upper (if step < 0 then lower else upper) stop))"

definition slice_length :: "int \<Rightarrow> int \<Rightarrow> int \<Rightarrow> nat" where
  "slice_length start stop step =
     (if step < 0 then (if stop < start then nat ((start - stop - 1) div (- step) + 1) else 0)
      else (if start < stop then nat ((stop - start - 1) div step + 1) else 0))"

definition list_slice :: "'a list \<Rightarrow> int option \<Rightarrow> int option \<Rightarrow> int option \<Rightarrow> error + 'a list" where
  "list_slice xs start stop step =
     (let st = (case step of None \<Rightarrow> 1 | Some s \<Rightarrow> s)
      in if st = 0 then Inl ValueError
         else (case slice_indices (len xs) start stop st of
                 (a, b) \<Rightarrow>
                   Inr (map (\<lambda>k. xs ! nat (a + int k * st)) [0..<slice_length a b st])))"

definition list_getitem :: "'a list \<Rightarrow> position \<Rightarrow> error + 'a item" where
  "list_getitem xs p =
     (case p of
        Index i \<Rightarrow> (case list_index_item xs i of Inl e \<Rightarrow> Inl e | Inr x \<Rightarrow> Inr (Item x))
      | Slice a b c \<Rightarrow> (case list_slice xs a b c of Inl e \<Rightarrow> Inl e | Inr ys \<Rightarrow> Inr (Items ys)))"

definition FrenchDeck_len :: "FrenchDeck \<Rightarrow> int" where
  "FrenchDeck_len self = len (cards self)"

definition FrenchDeck_getitem :: "FrenchDeck \<Rightarrow> position \<Rightarrow> error + Card item" where
  "FrenchDeck_getitem self position = list_getitem (cards self) position"

text \<open>
  The interpreter's own calls pass an integer: \<open>self[i]\<close> is then \<open>self._cards[i]\<close>, one
  card or \<open>IndexError\<close>.
\<close>

definition FrenchDeck_getitem_int :: "FrenchDeck \<Rightarrow> int \<Rightarrow> error + Card" where
  "FrenchDeck_getitem_int self i = list_index_item (cards self) i"

subsection \<open>Method calls\<close>

text \<open>
  A method call is given the object and leaves it behind for the next call: it returns its
  result together with the object as the method body leaves it. The two bodies only read
  \<open>self._cards\<close>.
\<close>

definition call_len :: "FrenchDeck \<Rightarrow> int \<times> FrenchDeck" where
  "call_len self = (FrenchDeck_len self, self)"

definition call_getitem :: "FrenchDeck \<Rightarrow> position \<Rightarrow> (error + Card item) \<times> FrenchDeck" where
  "call_getitem self position = (FrenchDeck_getitem self position, self)"

definition call_getitem_int :: "FrenchDeck \<Rightarrow> int \<Rightarrow> (error + Card) \<times> FrenchDeck" where
  "call_getitem_int self i = (FrenchDeck_getitem_int self i, self)"

subsection \<open>Iteration through the sequence protocol\<close>

text \<open>
  \<open>FrenchDeck\<close> defines neither \<open>__iter__\<close> nor \<open>__reversed__\<close>. A \<open>for\<close> loop therefore
  asks for \<open>self[0]\<close>, \<open>self[1]\<close>, ... until \<open>IndexError\<close>, which ends the loop; any other
  exception propagates. \<open>reversed\<close> reads \<open>len(self)\<close> once and asks for
  \<open>self[n - 1]\<close>, ..., \<open>self[0]\<close>, ending early on \<open>IndexError\<close> in the same way.
  The lazy sequences are modelled by the lists of the elements they yield; the object is
  threaded through the method calls.
\<close>

function iter_from :: "nat \<Rightarrow> FrenchDeck \<Rightarrow> (error + Card list) \<times> FrenchDeck" where
  "iter_from i self =
     (case call_getitem_int self (int i) of
        (Inl e, self') \<Rightarrow> (if e = IndexError then Inr [] else Inl e, self')
      | (Inr c, self') \<Rightarrow>
          (case iter_from (Suc i) self' of
             (Inl e, self'') \<Rightarrow> (Inl e, self'')
           | (Inr cs, self'') \<Rightarrow> (Inr (c # cs), self'')))"
  by pat_completeness auto
termination
  by (relation "measure (\<lambda>(i, self). length (cards self) - i)")
     (auto simp: call_getitem_int_def FrenchDeck_getitem_int_def list_index_item_def
                 normalize_def len_def Let_def
           split: if_splits)

declare iter_from.simps [simp del]

definition call_iter :: "FrenchDeck \<Rightarrow> (error + Card list) \<times> FrenchDeck" where
  "call_iter self = iter_from 0 self"

text \<open>\<open>rev_from n self\<close> is the reverse iterator whose next index is \<open>n - 1\<close>.\<close>

fun rev_from :: "nat \<Rightarrow> FrenchDeck \<Rightarrow> (error + Card list) \<times> FrenchDeck" where
  "rev_from 0 self = (Inr [], self)"
| "rev_from (Suc i) self =
     (case call_getitem_int self (int i) of
        (Inl e, self') \<Rightarrow> (if e = IndexError then Inr [] else Inl e, self')
      | (Inr c, self') \<Rightarrow>
          (case rev_from i self' of
             (Inl e, self'') \<Rightarrow> (Inl e, self'')
           | (Inr cs, self'') \<Rightarrow> (Inr (c # cs), self'')))"

definition call_reversed :: "FrenchDeck \<Rightarrow> (error + Card list) \<times> FrenchDeck" where
  "call_reversed self = (case call_len self of (n, self') \<Rightarrow> rev_from (nat n) self')"

text \<open>The sequences a \<open>for\<close> loop sees.\<close>

definition iterate :: "FrenchDeck \<Rightarrow> error + Card list" where
  "iterate self = fst (call_iter self)"

definition reversed :: "FrenchDeck \<Rightarrow> error + Card list" where
  "reversed self = fst (call_reversed self)"

subsection \<open>\<open>sorted\<close> with a key function\<close>

text \<open>
  \<open>sorted(iterable, key=f)\<close> collects the elements into a new list, computes the key of
  every element once, in order (the first exception propagates), and sorts the new list by
  these keys with a stable sort. \<open>sort_key\<close> is the stable insertion sort of the library.
\<close>

fun decorate :: "('a \<Rightarrow> error + 'k) \<Rightarrow> 'a list \<Rightarrow> error + ('k \<times> 'a) list" where
  "decorate key [] = Inr []"
| "decorate key (x # xs) =
     (case key x of
        Inl e \<Rightarrow> Inl e
      | Inr k \<Rightarrow> (case decorate key xs of Inl e \<Rightarrow> Inl e | Inr ps \<Rightarrow> Inr ((k, x) # ps)))"

definition sorted_list :: "('a \<Rightarrow> error + 'k::linorder) \<Rightarrow> 'a list \<Rightarrow> error + 'a list" where
  "sorted_list key xs =
     (case decorate key xs of Inl e \<Rightarrow> Inl e | Inr ps \<Rightarrow> Inr (map snd (sort_key fst ps)))"

definition call_sorted ::
  "(Card \<Rightarrow> error + 'k::linorder) \<Rightarrow> FrenchDeck \<Rightarrow> (error + Card list) \<times> FrenchDeck" where
  "call_sorted key self =
     (case call_iter self of
        (Inl e, self') \<Rightarrow> (Inl e, self')
      | (Inr cs, self') \<Rightarrow> (sorted_list key cs, self'))"

definition sorted_deck :: "(Card \<Rightarrow> error + 'k::linorder) \<Rightarrow> FrenchDeck \<Rightarrow> error + Card list" where
  "sorted_deck key self = fst (call_sorted key self)"

subsection \<open>The key function \<open>spades_high\<close>\<close>

text \<open>\<open>xs.index(x)\<close>: the first position of \<open>x\<close>, or \<open>ValueError\<close>.\<close>

fun index :: "'a list \<Rightarrow> 'a \<Rightarrow> error + int" where
  "index [] x = Inl ValueError"
| "index (y # ys) x =
     (if y = x then Inr 0 else (case index ys x of Inl e \<Rightarrow> Inl e | Inr i \<Rightarrow> Inr (i + 1)))"

text \<open>The dictionary literal has four distinct keys; it is kept as an association list.\<close>

definition suit_vals :: "(string \<times> int) list" where
  "suit_vals = [(''spades'', 3), (''hearts'', 2), (''diamonds'', 1), (''clubs'', 0)]"

definition spades_high :: "Card \<Rightarrow> error + int" where
  "spades_high c =
     (case index ranks (rank c) of
        Inl e \<Rightarrow> Inl e
      | Inr rank_value \<Rightarrow>
          (case map_of suit_vals (suit c) of
             None \<Rightarrow> Inl KeyError
           | Some v \<Rightarrow> Inr (rank_value * len suit_vals + v)))"

text \<open>
  The cards in the order that \<open>spades_high\<close> is meant to give: by rank, and within a rank
  clubs, diamonds, hearts, spades.
\<close>

abbreviation by_rank :: "Card list" where
  "by_rank \<equiv>
     concat (map (\<lambda>r. map (Card r) [''clubs'', ''diamonds'', ''hearts'', ''spades'']) ranks)"

subsection \<open>\<open>random.choice\<close>\<close>

text \<open>
  \<open>choice(seq)\<close> raises \<open>IndexError\<close> on an empty sequence and otherwise returns
  \<open>seq[randbelow(len(seq))]\<close>; the random source is the parameter \<open>randbelow\<close>.
\<close>

definition call_choice :: "(int \<Rightarrow> int) \<Rightarrow> FrenchDeck \<Rightarrow> (error + Card) \<times> FrenchDeck" where
  "call_choice randbelow seq =
     (case call_len seq of
        (n, seq') \<Rightarrow> if n = 0 then (Inl IndexError, seq') else call_getitem_int seq' (randbelow n))"

definition choice :: "(int \<Rightarrow> int) \<Rightarrow> FrenchDeck \<Rightarrow> error + Card" where
  "choice randbelow seq = fst (call_choice randbelow seq)"

subsection \<open>\<open>repr\<close> of a card\<close>

text \<open>
  A named tuple prints as \<open>Card(rank=..., suit=...)\<close> with \<open>repr\<close> of each field. \<open>repr\<close> of
  a string quotes it with \<open>'\<close>, or with \<open>"\<close> when the string contains \<open>'\<close> and no \<open>"\<close>;
  the quote and the backslash are escaped with a backslash, tab, newline and carriage
  return are written \<open>\t\<close>, \<open>\n\<close>, \<open>\r\<close>, and every other non-printable character is
  written \<open>\xhh\<close>. Characters are the code points below 256.
\<close>

definition hexdigit :: "nat \<Rightarrow> char" where
  "hexdigit d = ''0123456789abcdef'' ! d"

definition printable :: "char \<Rightarrow> bool" where
  "printable c = (let n = (of_char c :: nat) in (32 \<le> n \<and> n < 127) \<or> (161 \<le> n \<and> n \<noteq> 173))"

definition repr_char :: "char \<Rightarrow> char \<Rightarrow> string" where
  "repr_char quote c =
     (if c = quote \<or> c = CHR 0x5C then [CHR 0x5C, c]
      else if c = CHR 0x09 then [CHR 0x5C, CHR ''t'']
      else if c = CHR 0x0A then [CHR 0x5C, CHR ''n'']
      else if c = CHR 0x0D then [CHR 0x5C, CHR ''r'']
      else if \<not> printable c
        then [CHR 0x5C, CHR ''x'', hexdigit (of_char c div 16), hexdigit (of_char c mod 16)]
      else [c])"

definition repr_quote :: "string \<Rightarrow> char" where
  "repr_quote s = (if CHR 0x27 \<in> set s \<and> CHR 0x22 \<notin> set s then CHR 0x22 else CHR 0x27)"

definition repr_str :: "string \<Rightarrow> string" where
  "repr_str s = (let quote = repr_quote s in quote # concat (map (repr_char quote) s) @ [quote])"

definition Card_repr :: "Card \<Rightarrow> string" where
  "Card_repr c =
     ''Card(rank='' @ repr_str (rank c) @ '', suit='' @ repr_str (suit c) @ '')''"

subsection \<open>The operations on a deck\<close>

text \<open>
  What the notebook does with a deck: \<open>len(deck)\<close>, \<open>deck[position]\<close>, a \<open>for\<close> loop over
  \<open>deck\<close> or \<open>reversed(deck)\<close>, \<open>sorted(deck, key=...)\<close>, \<open>choice(deck)\<close>, and printing a
  card. \<open>exec\<close> gives the outcome of one operation and the deck after it, \<open>run\<close> those of a
  series of operations, one after the other on the same deck.
\<close>

datatype outcome =
  Raised error | Count int | Element "Card item" | One Card | Sequence "Card list" | Text string

datatype operation =
  Length | ElementAt position | Iterate | IterateReverse
| Sort "Card \<Rightarrow> error + int" | RandomElement "int \<Rightarrow> int" | Represent Card

definition returned :: "('a \<Rightarrow> outcome) \<Rightarrow> error + 'a \<Rightarrow> outcome" where
  "returned f r = (case r of Inl e \<Rightarrow> Raised e | Inr v \<Rightarrow> f v)"

fun exec :: "operation \<Rightarrow> FrenchDeck \<Rightarrow> outcome \<times> FrenchDeck" where
  "exec Length self = (case call_len self of (n, self') \<Rightarrow> (Count n, self'))"
| "exec (ElementAt p) self = (case call_getitem self p of (r, self') \<Rightarrow> (returned Element r, self'))"
| "exec Iterate self = (case call_iter self of (r, self') \<Rightarrow> (returned Sequence r, self'))"
| "exec IterateReverse self =
     (case call_reversed self of (r, self') \<Rightarrow> (returned Sequence r, self'))"
| "exec (Sort key) self = (case call_sorted key self of (r, self') \<Rightarrow> (returned Sequence r, self'))"
| "exec (RandomElement randbelow) self =
     (case call_choice randbelow self of (r, self') \<Rightarrow> (returned One r, self'))"
| "exec (Represent c) self = (Text (Card_repr c), self)"

fun run :: "operation list \<Rightarrow> FrenchDeck \<Rightarrow> outcome list \<times> FrenchDeck" where
  "run [] self = ([], self)"
| "run (op # ops) self =
     (case exec op self of
        (r, self') \<Rightarrow> (case run ops self' of (rs, self'') \<Rightarrow> (r # rs, self'')))"

section \<open>Properties\<close>

subsection \<open>The class attributes and the constructed deck\<close>

lemma ranks_eq:
  "ranks = map (\<lambda>c. [c]) ''23456789'' @ ''10'' # map (\<lambda>c. [c]) ''JQKA''"
  by (simp add: ranks_def range2_def list_of_str_def str_int_def str_nat.simps digit_char_def
        upto_rec_numeral)

lemma suits_eq: "suits = [''spades'', ''diamonds'', ''clubs'', ''hearts'']"
  by (simp add: suits_def split_def isspace_def)

lemma length_ranks: "length ranks = 13"
  by (simp add: ranks_eq)

lemma length_suits: "length suits = 4"
  by (simp add: suits_eq)

lemma length_product:
  "length (concat (map (\<lambda>s. map (\<lambda>r. f r s) rs) ss)) = length ss * length rs"
  by (induction ss) simp_all

lemma nth_product:
  "i < length ss \<Longrightarrow> j < length rs \<Longrightarrow>
   concat (map (\<lambda>s. map (\<lambda>r. f r s) rs) ss) ! (i * length rs + j) = f (rs ! j) (ss ! i)"
proof (induction ss arbitrary: i)
  case Nil
  then show ?case by simp
next
  case (Cons s ss)
  show ?case
  proof (cases i)
    case 0
    with Cons.prems show ?thesis by (simp add: nth_append)
  next
    case (Suc k)
    with Cons.prems have "k < length ss" by simp
    from Cons.IH [OF this Cons.prems(2)] Suc show ?thesis
      by (simp add: nth_append)
  qed
qed

lemma length_cards_init: "length (cards FrenchDeck_init) = 52"
  by (simp add: FrenchDeck_init_def length_product length_ranks length_suits)

text \<open>
  Claim C1: the constructor takes no input, and the deck it builds has length 52, the
  number of ranks (13) times the number of suits (4).
\<close>

theorem deck_length_52:
  "FrenchDeck_len FrenchDeck_init = 52 \<and> len ranks = 13 \<and> len suits = 4 \<and>
   FrenchDeck_len FrenchDeck_init = len ranks * len suits"
  by (simp add: FrenchDeck_len_def len_def length_cards_init length_ranks length_suits)

subsection \<open>Indexing\<close>

lemma getitem_in_range:
  "0 \<le> i \<Longrightarrow> i < len (cards self) \<Longrightarrow>
   FrenchDeck_getitem self (Index i) = Inr (Item (cards self ! nat i))"
  by (simp add: FrenchDeck_getitem_def list_getitem_def list_index_item_def normalize_def)

text \<open>
  Claim C2: the suits are the outer loop and the ranks the inner one, so the ranks change
  fastest: the card at position \<open>i * 13 + j\<close> has the \<open>j\<close>-th rank and the \<open>i\<close>-th suit, and
  the card at position 0 is the 2 of spades.
\<close>

theorem construction_order:
  "FrenchDeck_getitem FrenchDeck_init (Index 0) = Inr (Item (Card ''2'' ''spades'')) \<and>
   (i < length suits \<and> j < length ranks \<longrightarrow>
      FrenchDeck_getitem FrenchDeck_init (Index (int (i * length ranks + j)))
        = Inr (Item (Card (ranks ! j) (suits ! i))))"
proof (intro conjI impI)
  have "FrenchDeck_getitem FrenchDeck_init (Index 0) = Inr (Item (cards FrenchDeck_init ! nat 0))"
    by (rule getitem_in_range) (simp_all add: len_def length_cards_init)
  also have "cards FrenchDeck_init ! nat 0 = Card (ranks ! 0) (suits ! 0)"
    using nth_product [of 0 suits 0 ranks Card]
    by (simp add: FrenchDeck_init_def length_ranks length_suits)
  finally show "FrenchDeck_getitem FrenchDeck_init (Index 0) = Inr (Item (Card ''2'' ''spades''))"
    by (simp add: ranks_eq suits_eq)
next
  assume ij: "i < length suits \<and> j < length ranks"
  then have "i * 13 + j < 52"
    by (simp add: length_ranks length_suits)
  then have "FrenchDeck_getitem FrenchDeck_init (Index (int (i * length ranks + j)))
      = Inr (Item (cards FrenchDeck_init ! nat (int (i * length ranks + j))))"
    by (intro getitem_in_range) (simp_all add: len_def length_cards_init length_ranks)
  also have "cards FrenchDeck_init ! nat (int (i * length ranks + j)) = Card (ranks ! j) (suits ! i)"
    unfolding nat_int using ij nth_product [of i suits j ranks Card]
    by (simp add: FrenchDeck_init_def)
  finally show "FrenchDeck_getitem FrenchDeck_init (Index (int (i * length ranks + j)))
        = Inr (Item (Card (ranks ! j) (suits ! i)))" .
qed

theorem construction_order_witness:
  "(1::nat) < length suits \<and> (2::nat) < length ranks \<and>
   FrenchDeck_getitem FrenchDeck_init (Index 0) = Inr (Item (Card ''2'' ''spades'')) \<and>
   FrenchDeck_getitem FrenchDeck_init (Index 15) = Inr (Item (Card ''4'' ''diamonds''))"
  using construction_order [of 1 2] by (simp add: ranks_eq suits_eq)

lemma getitem_index_cases:
  "FrenchDeck_getitem self (Index i) =
     (if i < - FrenchDeck_len self \<or> FrenchDeck_len self \<le> i then Inl IndexError
      else Inr (Item (cards self ! nat (if i < 0 then i + FrenchDeck_len self else i))))"
  by (simp add: FrenchDeck_getitem_def FrenchDeck_len_def list_getitem_def list_index_item_def
        normalize_def len_def Let_def)

lemma first_card_init: "cards FrenchDeck_init ! 0 = Card ''2'' ''spades''"
  using nth_product [of 0 suits 0 ranks Card]
  by (simp add: FrenchDeck_init_def ranks_eq suits_eq)

lemma len_init: "FrenchDeck_len FrenchDeck_init = 52"
  by (simp add: FrenchDeck_len_def len_def length_cards_init)

lemma last_card_init: "cards FrenchDeck_init ! 51 = Card ''A'' ''hearts''"
  using nth_product [of 3 suits 12 ranks Card]
  by (simp add: FrenchDeck_init_def ranks_eq suits_eq)

text \<open>
  Claim C3: for an integer index \<open>i\<close>, \<open>__getitem__\<close> raises \<open>IndexError\<close> exactly when
  the index, with \<open>len(deck)\<close> added to it if it is negative, is below 0 or not below
  \<open>len(deck)\<close>; that is, exactly when \<open>i < -len(deck)\<close> or \<open>len(deck) \<le> i\<close>. It raises
  nothing else, and every other index returns the card at the position \<open>i\<close>, or
  \<open>i + len(deck)\<close> for a negative \<open>i\<close>. The index \<open>len(deck)\<close> raises; the operation then
  ends with the exception and the deck as it was. On the constructed deck the indices 52
  and \<open>-53\<close> raise, \<open>-52\<close> gives the first card and \<open>-1\<close> the last.
\<close>

theorem getitem_index_error:
  "(FrenchDeck_getitem self (Index i) = Inl IndexError) =
     ((if i < 0 then i + FrenchDeck_len self else i) < 0 \<or>
      FrenchDeck_len self \<le> (if i < 0 then i + FrenchDeck_len self else i)) \<and>
   (FrenchDeck_getitem self (Index i) = Inl IndexError) =
     (i < - FrenchDeck_len self \<or> FrenchDeck_len self \<le> i) \<and>
   isl (FrenchDeck_getitem self (Index i)) =
     (i < - FrenchDeck_len self \<or> FrenchDeck_len self \<le> i) \<and>
   FrenchDeck_getitem self (Index i) =
     (if i < - FrenchDeck_len self \<or> FrenchDeck_len self \<le> i then Inl IndexError
      else Inr (Item (cards self ! nat (if i < 0 then i + FrenchDeck_len self else i)))) \<and>
   FrenchDeck_getitem self (Index (FrenchDeck_len self)) = Inl IndexError \<and>
   (exec (ElementAt (Index i)) self = (Raised IndexError, self)) =
     (i < - FrenchDeck_len self \<or> FrenchDeck_len self \<le> i) \<and>
   exec (ElementAt (Index (FrenchDeck_len self))) self = (Raised IndexError, self) \<and>
   FrenchDeck_getitem FrenchDeck_init (Index 52) = Inl IndexError \<and>
   FrenchDeck_getitem FrenchDeck_init (Index (- 53)) = Inl IndexError \<and>
   FrenchDeck_getitem FrenchDeck_init (Index (- 52)) = Inr (Item (Card ''2'' ''spades'')) \<and>
   FrenchDeck_getitem FrenchDeck_init (Index (- 1)) = Inr (Item (Card ''A'' ''hearts''))"
proof -
  have nonneg: "0 \<le> FrenchDeck_len self"
    by (simp add: FrenchDeck_len_def len_def)
  have raises: "(FrenchDeck_getitem self (Index i) = Inl IndexError) =
      (i < - FrenchDeck_len self \<or> FrenchDeck_len self \<le> i)"
    by (simp add: getitem_index_cases)
  have spelled: "(FrenchDeck_getitem self (Index i) = Inl IndexError) =
     ((if i < 0 then i + FrenchDeck_len self else i) < 0 \<or>
      FrenchDeck_len self \<le> (if i < 0 then i + FrenchDeck_len self else i))"
    unfolding raises using nonneg by auto
  have fails: "isl (FrenchDeck_getitem self (Index i)) =
      (i < - FrenchDeck_len self \<or> FrenchDeck_len self \<le> i)"
    by (simp add: getitem_index_cases)
  have at_len: "FrenchDeck_getitem self (Index (FrenchDeck_len self)) = Inl IndexError"
    by (simp add: getitem_index_cases)
  have exec_raises: "(exec (ElementAt (Index i)) self = (Raised IndexError, self)) =
      (i < - FrenchDeck_len self \<or> FrenchDeck_len self \<le> i)"
    by (simp add: call_getitem_def returned_def getitem_index_cases)
  have exec_at_len: "exec (ElementAt (Index (FrenchDeck_len self))) self = (Raised IndexError, self)"
    by (simp add: call_getitem_def returned_def getitem_index_cases)
  have c52: "FrenchDeck_getitem FrenchDeck_init (Index 52) = Inl IndexError"
    by (simp add: getitem_index_cases len_init)
  have c53: "FrenchDeck_getitem FrenchDeck_init (Index (- 53)) = Inl IndexError"
    by (simp add: getitem_index_cases len_init)
  have cm52: "FrenchDeck_getitem FrenchDeck_init (Index (- 52)) = Inr (Item (Card ''2'' ''spades''))"
    by (simp add: getitem_index_cases len_init first_card_init)
  have cm1: "FrenchDeck_getitem FrenchDeck_init (Index (- 1)) = Inr (Item (Card ''A'' ''hearts''))"
    by (simp add: getitem_index_cases len_init last_card_init)
  show ?thesis
    by (intro conjI spelled raises fails getitem_index_cases at_len exec_raises exec_at_len
          c52 c53 cm52 cm1)
qed

lemma getitem_from_end:
  "0 < k \<Longrightarrow> k \<le> len (cards self) \<Longrightarrow>
   FrenchDeck_getitem self (Index (- k)) = Inr (Item (rev (cards self) ! nat (k - 1)))"
proof -
  assume k: "0 < k" "k \<le> len (cards self)"
  then have "nat (k - 1) < length (cards self)"
    by (simp add: len_def)
  then have "rev (cards self) ! nat (k - 1) = cards self ! (length (cards self) - Suc (nat (k - 1)))"
    by (rule rev_nth)
  also from k have "length (cards self) - Suc (nat (k - 1)) = nat (- k + len (cards self))"
    by (simp add: len_def)
  finally show ?thesis
    using k
    by (simp add: FrenchDeck_getitem_def list_getitem_def list_index_item_def normalize_def)
qed

text \<open>
  Claim C5: on every deck the index \<open>-1\<close> gives what the index \<open>len(deck) - 1\<close> gives.
  More generally a negative index counts from the end: for \<open>0 < k \<le> len(deck)\<close> the
  index \<open>-k\<close> gives what \<open>len(deck) - k\<close> gives, the \<open>k\<close>-th card from the end. On the
  constructed deck the index \<open>-1\<close> gives the last card, the ace of hearts.
\<close>

theorem getitem_minus_one:
  "FrenchDeck_getitem self (Index (- 1)) = FrenchDeck_getitem self (Index (FrenchDeck_len self - 1)) \<and>
   (0 < k \<and> k \<le> FrenchDeck_len self \<longrightarrow>
      FrenchDeck_getitem self (Index (- k)) = FrenchDeck_getitem self (Index (FrenchDeck_len self - k)) \<and>
      FrenchDeck_getitem self (Index (- k)) = Inr (Item (rev (cards self) ! nat (k - 1)))) \<and>
   FrenchDeck_getitem FrenchDeck_init (Index (- 1)) = Inr (Item (Card ''A'' ''hearts'')) \<and>
   FrenchDeck_getitem FrenchDeck_init (Index (FrenchDeck_len FrenchDeck_init - 1))
     = Inr (Item (Card ''A'' ''hearts''))"
proof -
  have general: "FrenchDeck_getitem d (Index (- 1)) = FrenchDeck_getitem d (Index (FrenchDeck_len d - 1))"
    for d
    by (simp add: FrenchDeck_getitem_def FrenchDeck_len_def list_getitem_def list_index_item_def
          normalize_def len_def)
  have from_end: "0 < k \<and> k \<le> FrenchDeck_len self \<longrightarrow>
      FrenchDeck_getitem self (Index (- k)) = FrenchDeck_getitem self (Index (FrenchDeck_len self - k)) \<and>
      FrenchDeck_getitem self (Index (- k)) = Inr (Item (rev (cards self) ! nat (k - 1)))"
    using getitem_from_end [of k self]
    by (simp add: FrenchDeck_getitem_def FrenchDeck_len_def list_getitem_def list_index_item_def
          normalize_def)
  have "FrenchDeck_getitem FrenchDeck_init (Index (FrenchDeck_len FrenchDeck_init - 1))
      = Inr (Item (cards FrenchDeck_init ! nat (FrenchDeck_len FrenchDeck_init - 1)))"
    by (rule getitem_in_range) (simp_all add: FrenchDeck_len_def len_def length_cards_init)
  then have last: "FrenchDeck_getitem FrenchDeck_init (Index (FrenchDeck_len FrenchDeck_init - 1))
      = Inr (Item (Card ''A'' ''hearts''))"
    by (simp add: FrenchDeck_len_def len_def length_cards_init last_card_init)
  have first: "FrenchDeck_getitem FrenchDeck_init (Index (- 1)) = Inr (Item (Card ''A'' ''hearts''))"
    unfolding general [of FrenchDeck_init] by (rule last)
  show ?thesis
    by (intro conjI general from_end first last)
qed

theorem getitem_minus_one_witness:
  "(0::int) < 2 \<and> 2 \<le> FrenchDeck_len FrenchDeck_init \<and>
   FrenchDeck_getitem FrenchDeck_init (Index (- 2)) = FrenchDeck_getitem FrenchDeck_init (Index 50) \<and>
   FrenchDeck_getitem FrenchDeck_init (Index (- 2)) = Inr (Item (Card ''K'' ''hearts''))"
proof -
  have n: "FrenchDeck_len FrenchDeck_init = 52"
    by (simp add: FrenchDeck_len_def len_def length_cards_init)
  have "rev (cards FrenchDeck_init) ! nat (2 - 1) = Card ''K'' ''hearts''"
    by (simp add: FrenchDeck_init_def ranks_eq suits_eq)
  with n show ?thesis
    using getitem_minus_one [of FrenchDeck_init 2, THEN conjunct2, THEN conjunct1] by auto
qed

subsection \<open>Slicing\<close>

lemma map_nth_take: "m \<le> length xs \<Longrightarrow> map (\<lambda>k. xs ! k) [0..<m] = take m xs"
  by (rule nth_equalityI) simp_all

lemma list_slice_prefix:
  "0 \<le> n \<Longrightarrow> a = None \<or> a = Some 0 \<Longrightarrow> c = None \<or> c = Some 1 \<Longrightarrow>
   list_slice xs a (Some n) c = Inr (take (nat n) xs)"
proof -
  assume n: "0 \<le> n" and a: "a = None \<or> a = Some 0" and c: "c = None \<or> c = Some 1"
  define m where "m = min (nat n) (length xs)"
  have ind: "slice_indices (len xs) a (Some n) 1 = (0, int m)"
    using n a by (auto simp: slice_indices_def slice_bound_def len_def m_def Let_def)
  have "list_slice xs a (Some n) c = Inr (map (\<lambda>k. xs ! k) [0..<m])"
    using c ind by (auto simp: list_slice_def slice_length_def)
  also have "map (\<lambda>k. xs ! k) [0..<m] = take m xs"
    by (rule map_nth_take) (simp add: m_def)
  also have "take m xs = take (nat n) xs"
    by (simp add: m_def min_def)
  finally show ?thesis .
qed

text \<open>
  Claim C6: \<open>deck[:3]\<close>, and likewise \<open>deck[0:3]\<close>, is the list of the first three cards in
  their stored order; on the constructed deck these are the 2, 3 and 4 of spades.
\<close>

theorem slice_first_three:
  "FrenchDeck_getitem self (Slice None (Some 3) None) = Inr (Items (take 3 (cards self))) \<and>
   FrenchDeck_getitem self (Slice (Some 0) (Some 3) None) = Inr (Items (take 3 (cards self))) \<and>
   FrenchDeck_getitem FrenchDeck_init (Slice None (Some 3) None)
     = Inr (Items [Card ''2'' ''spades'', Card ''3'' ''spades'', Card ''4'' ''spades''])"
proof -
  have general: "FrenchDeck_getitem d (Slice a (Some 3) None) = Inr (Items (take 3 (cards d)))"
    if "a = None \<or> a = Some 0" for d a
    using that list_slice_prefix [of 3 a None "cards d"]
    by (simp add: FrenchDeck_getitem_def list_getitem_def)
  have "take 3 (cards FrenchDeck_init)
      = [Card ''2'' ''spades'', Card ''3'' ''spades'', Card ''4'' ''spades'']"
    by (simp add: FrenchDeck_init_def ranks_eq suits_eq)
  then show ?thesis
    using general [of None self] general [of "Some 0" self] general [of None FrenchDeck_init]
    by simp
qed

subsection \<open>Iteration\<close>

lemma getitem_int_in_range:
  "i < length (cards self) \<Longrightarrow> FrenchDeck_getitem_int self (int i) = Inr (cards self ! i)"
  by (simp add: FrenchDeck_getitem_int_def list_index_item_def normalize_def len_def)

lemma getitem_int_at_length:
  "FrenchDeck_getitem_int self (int (length (cards self))) = Inl IndexError"
  by (simp add: FrenchDeck_getitem_int_def list_index_item_def normalize_def len_def)

lemma iter_from_drop:
  "i \<le> length (cards self) \<Longrightarrow> iter_from i self = (Inr (drop i (cards self)), self)"
proof (induction "length (cards self) - i" arbitrary: i)
  case 0
  then have "i = length (cards self)" by simp
  then show ?case
    by (subst iter_from.simps) (simp add: call_getitem_int_def getitem_int_at_length)
next
  case (Suc n)
  then have lt: "i < length (cards self)" by simp
  with Suc have "iter_from (Suc i) self = (Inr (drop (Suc i) (cards self)), self)" by simp
  with lt show ?case
    by (subst iter_from.simps)
       (simp add: call_getitem_int_def getitem_int_in_range Cons_nth_drop_Suc)
qed

lemma rev_from_take:
  "n \<le> length (cards self) \<Longrightarrow> rev_from n self = (Inr (rev (take n (cards self))), self)"
proof (induction n)
  case 0
  show ?case by simp
next
  case (Suc n)
  then show ?case
    by (simp add: call_getitem_int_def getitem_int_in_range take_Suc_conv_app_nth)
qed

lemma call_iter_eq: "call_iter self = (Inr (cards self), self)"
  by (simp add: call_iter_def iter_from_drop)

lemma call_reversed_eq: "call_reversed self = (Inr (rev (cards self)), self)"
  by (simp add: call_reversed_def call_len_def FrenchDeck_len_def len_def rev_from_take)

text \<open>
  Claim C7: a \<open>for\<close> loop over a deck yields its cards in stored order and ends, a loop
  over \<open>reversed(deck)\<close> yields them in the opposite order and ends; reversing the second
  sequence gives the first.
\<close>

theorem reversed_is_reverse_of_iterate:
  "iterate self = Inr (cards self) \<and> reversed self = Inr (rev (cards self)) \<and>
   map_sum id rev (reversed self) = iterate self"
  by (simp add: iterate_def reversed_def call_iter_eq call_reversed_eq)

subsection \<open>No operation changes the deck\<close>

lemma call_sorted_eq: "call_sorted key self = (sorted_list key (cards self), self)"
  by (simp add: call_sorted_def call_iter_eq)

lemma call_choice_eq: "call_choice randbelow self = (choice randbelow self, self)"
  by (simp add: choice_def call_choice_def call_len_def call_getitem_int_def)

lemma exec_snd: "snd (exec op self) = self"
  by (cases op)
     (simp_all add: call_len_def call_getitem_def call_iter_eq call_reversed_eq call_sorted_eq
        call_choice_eq)

lemma run_snd: "snd (run ops self) = self"
proof (induction ops)
  case Nil
  show ?case by simp
next
  case (Cons op ops)
  have "snd (exec op self) = self" by (rule exec_snd)
  with Cons show ?case by (simp split: prod.splits) (metis snd_conv)
qed

text \<open>
  Claim C4: each of the seven operations returns the deck it was given, and so does any
  series of them; after any such series the length is the same and every position, valid
  or not, gives the same result as before. \<open>sorted\<close> returns the sorted cards as a list of
  its own and the deck keeps its order.
\<close>

theorem operations_leave_deck_unchanged:
  "snd (exec op self) = self \<and> snd (run ops self) = self \<and>
   FrenchDeck_len (snd (run ops self)) = FrenchDeck_len self \<and>
   FrenchDeck_getitem (snd (run ops self)) p = FrenchDeck_getitem self p \<and>
   fst (exec (ElementAt p) (snd (run ops self))) = fst (exec (ElementAt p) self) \<and>
   exec (Sort key) self = (returned Sequence (sorted_list key (cards self)), self)"
  by (simp add: exec_snd run_snd call_sorted_eq)

subsection \<open>Sorting\<close>

lemma decorate_Inr:
  "decorate key xs = Inr ps \<Longrightarrow> map snd ps = xs \<and> (\<forall>p \<in> set ps. key (snd p) = Inr (fst p))"
  by (induction xs arbitrary: ps) (auto split: sum.splits)

lemma decorate_pairs:
  "(\<forall>p \<in> set ps. key (snd p) = Inr (fst p)) \<Longrightarrow> decorate key (map snd ps) = Inr ps"
  by (induction ps) auto

lemma sorted_list_Inr:
  assumes "sorted_list key xs = Inr ys"
  obtains ps where "decorate key xs = Inr ps" and "ys = map snd (sort_key fst ps)"
  using assms by (auto simp: sorted_list_def split: sum.splits)

lemma sorted_list_set: "sorted_list key xs = Inr ys \<Longrightarrow> set ys = set xs"
proof (erule sorted_list_Inr)
  fix ps
  assume "decorate key xs = Inr ps" and ys: "ys = map snd (sort_key fst ps)"
  then have "map snd ps = xs" by (simp add: decorate_Inr)
  then have "set xs = snd ` set ps" by (metis set_map)
  with ys show "set ys = set xs" by simp
qed

lemma sorted_list_again:
  assumes "sorted_list key xs = Inr ys"
  shows "sorted_list key ys = Inr ys"
proof -
  from assms obtain ps where ps: "decorate key xs = Inr ps"
    and ys: "ys = map snd (sort_key fst ps)"
    by (rule sorted_list_Inr)
  let ?qs = "sort_key fst ps"
  from ps have "\<forall>p \<in> set ?qs. key (snd p) = Inr (fst p)"
    by (simp add: decorate_Inr)
  then have "decorate key ys = Inr ?qs"
    unfolding ys by (rule decorate_pairs)
  moreover have "sort_key fst ?qs = ?qs"
    by (rule sort_key_id_if_sorted) (rule sorted_sort_key)
  ultimately show ?thesis
    by (simp add: sorted_list_def ys)
qed

lemma sorted_list_stable:
  assumes "sorted_list key xs = Inr ys"
  shows "filter (\<lambda>x. key x = Inr k) ys = filter (\<lambda>x. key x = Inr k) xs"
proof -
  from assms obtain ps where ps: "decorate key xs = Inr ps"
    and ys: "ys = map snd (sort_key fst ps)"
    by (rule sorted_list_Inr)
  from ps have xs: "xs = map snd ps" and keys: "\<forall>p \<in> set ps. key (snd p) = Inr (fst p)"
    by (simp_all add: decorate_Inr)
  have sel: "filter (\<lambda>x. key x = Inr k) (map snd qs) = map snd (filter (\<lambda>p. fst p = k) qs)"
    if "set qs = set ps" for qs
  proof -
    have "filter ((\<lambda>x. key x = Inr k) \<circ> snd) qs = filter (\<lambda>p. fst p = k) qs"
      using keys that by (intro filter_cong) auto
    then show ?thesis by (simp add: filter_map)
  qed
  have "filter (\<lambda>x. key x = Inr k) ys = map snd (filter (\<lambda>p. fst p = k) (sort_key fst ps))"
    unfolding ys by (rule sel) simp
  also have "\<dots> = map snd (filter (\<lambda>p. fst p = k) ps)"
    by (simp add: sort_key_stable)
  also have "\<dots> = filter (\<lambda>x. key x = Inr k) xs"
    unfolding xs by (rule sel [symmetric]) simp
  finally show ?thesis .
qed

lemma sorted_list_of_sorted:
  assumes "decorate key xs = Inr ps" and "sorted (map fst ps)"
  shows "sorted_list key xs = Inr xs"
  using assms by (simp add: sorted_list_def sort_key_id_if_sorted decorate_Inr)

text \<open>
  Claim C8: when \<open>sorted\<close> returns a list, sorting that list again by the same key function
  returns the same list; elements with equal keys keep their relative order; and a list
  whose keys are already in order is returned as it is.
\<close>

theorem sorted_idempotent:
  "(sorted_list key xs = Inr ys \<longrightarrow>
      sorted_list key ys = Inr ys \<and>
      (\<forall>k. filter (\<lambda>x. key x = Inr k) ys = filter (\<lambda>x. key x = Inr k) xs)) \<and>
   (decorate key zs = Inr ps \<and> sorted (map fst ps) \<longrightarrow> sorted_list key zs = Inr zs)"
  using sorted_list_again [of key xs ys] sorted_list_stable [of key xs ys]
    sorted_list_of_sorted [of key zs ps]
  by blast

theorem sorted_idempotent_witness:
  "sorted_list (\<lambda>c. index ranks (rank c))
       [Card ''3'' ''spades'', Card ''2'' ''hearts'', Card ''2'' ''spades'']
     = Inr [Card ''2'' ''hearts'', Card ''2'' ''spades'', Card ''3'' ''spades''] \<and>
   sorted_list (\<lambda>c. index ranks (rank c))
       [Card ''2'' ''hearts'', Card ''2'' ''spades'', Card ''3'' ''spades'']
     = Inr [Card ''2'' ''hearts'', Card ''2'' ''spades'', Card ''3'' ''spades''] \<and>
   filter (\<lambda>c. index ranks (rank c) = Inr 0)
       [Card ''2'' ''hearts'', Card ''2'' ''spades'', Card ''3'' ''spades'']
     = [Card ''2'' ''hearts'', Card ''2'' ''spades''] \<and>
   decorate (\<lambda>c. index ranks (rank c)) [Card ''2'' ''hearts'', Card ''3'' ''spades'']
     = Inr [(0, Card ''2'' ''hearts''), (1, Card ''3'' ''spades'')] \<and>
   sorted (map fst [(0 :: int, Card ''2'' ''hearts''), (1, Card ''3'' ''spades'')]) \<and>
   sorted_list (\<lambda>c. index ranks (rank c)) [Card ''2'' ''hearts'', Card ''3'' ''spades'']
     = Inr [Card ''2'' ''hearts'', Card ''3'' ''spades'']"
  using sorted_idempotent [of "\<lambda>c. index ranks (rank c)"
      "[Card ''3'' ''spades'', Card ''2'' ''hearts'', Card ''2'' ''spades'']"
      "[Card ''2'' ''hearts'', Card ''2'' ''spades'', Card ''3'' ''spades'']"
      "[Card ''2'' ''hearts'', Card ''3'' ''spades'']"
      "[(0, Card ''2'' ''hearts''), (1, Card ''3'' ''spades'')]"]
  by (simp add: sorted_list_def ranks_eq)

subsection \<open>The order given by \<open>spades_high\<close>\<close>

lemma decorate_total:
  "(\<forall>x \<in> set xs. key x = Inr (g x)) \<Longrightarrow> decorate key xs = Inr (map (\<lambda>x. (g x, x)) xs)"
  by (induction xs) auto

lemma insort_key_decorated:
  "insort_key fst (g x, x) (map (\<lambda>x. (g x, x)) ys) = map (\<lambda>x. (g x, x)) (insort_key g x ys)"
  by (induction ys) auto

lemma sort_key_decorated:
  "sort_key fst (map (\<lambda>x. (g x, x)) xs) = map (\<lambda>x. (g x, x)) (sort_key g xs)"
  by (induction xs) (simp_all add: insort_key_decorated)

lemma sorted_list_total:
  "(\<forall>x \<in> set xs. key x = Inr (g x)) \<Longrightarrow> sorted_list key xs = Inr (sort_key g xs)"
  using decorate_total [of xs key g]
  by (simp add: sorted_list_def sort_key_decorated comp_def)

lemma sort_key_unique:
  assumes "sorted (map g ys)" and "distinct (map g ys)"
    and "set ys = set xs" and "length ys = length xs"
  shows "sort_key g xs = ys"
proof -
  from assms(2) have dy: "distinct ys" and inj: "inj_on g (set ys)"
    by (simp_all add: distinct_map)
  from dy assms(3,4) have "card (set xs) = length xs"
    by (metis distinct_card)
  then have dx: "distinct xs" by (rule card_distinct)
  show ?thesis
  proof (rule map_sorted_distinct_set_unique [of g])
    show "inj_on g (set (sort_key g xs) \<union> set ys)"
      using inj assms(3) by simp
    show "sorted (map g (sort_key g xs))" by (rule sorted_sort_key)
    show "distinct (map g (sort_key g xs))"
      using dx inj assms(3) by (simp add: distinct_map)
    show "sorted (map g ys)" "distinct (map g ys)" by fact+
    show "set (sort_key g xs) = set ys" using assms(3) by simp
  qed
qed

lemma index_nth:
  "distinct xs \<Longrightarrow> j < length xs \<Longrightarrow> index xs (xs ! j) = Inr (int j)"
proof (induction xs arbitrary: j)
  case Nil
  then show ?case by simp
next
  case (Cons x xs)
  then show ?case by (cases j) auto
qed

lemma distinct_ranks: "distinct ranks"
  by (simp add: ranks_eq)

lemma keys_by_rank: "map spades_high by_rank = map Inr [0..51]"
  by (simp add: ranks_eq spades_high_def suit_vals_def len_def upto_rec1)

lemma set_by_rank: "set by_rank = set (cards FrenchDeck_init)"
  by (auto simp: FrenchDeck_init_def suits_eq)

lemma length_by_rank: "length by_rank = 52"
  by (simp add: length_concat comp_def sum_list_triv length_ranks)

lemma numeric_keys_by_rank: "map (projr \<circ> spades_high) by_rank = [0..51]"
proof -
  have "map (projr \<circ> spades_high) by_rank = map projr (map spades_high by_rank)"
    by (simp only: map_map)
  also have "\<dots> = map projr (map (Inr :: int \<Rightarrow> error + int) [0..51])"
    by (simp only: keys_by_rank)
  also have "\<dots> = [0..51]"
    by (simp only: map_map comp_def sum.sel map_ident)
  finally show ?thesis .
qed

lemma spades_high_defined:
  "c \<in> set (cards FrenchDeck_init) \<Longrightarrow> spades_high c = Inr ((projr \<circ> spades_high) c)"
proof -
  assume "c \<in> set (cards FrenchDeck_init)"
  then have "spades_high c \<in> set (map spades_high by_rank)"
    by (simp only: set_by_rank [symmetric] set_map) (rule imageI)
  then have "spades_high c \<in> Inr ` {0..51}"
    by (simp only: keys_by_rank set_map set_upto)
  then show ?thesis by auto
qed



lemma sort_init: "sort_key (projr \<circ> spades_high) (cards FrenchDeck_init) = by_rank"
proof (rule sort_key_unique)
  show "sorted (map (projr \<circ> spades_high) by_rank)"
    unfolding numeric_keys_by_rank by (rule sorted_upto)
  show "distinct (map (projr \<circ> spades_high) by_rank)"
    unfolding numeric_keys_by_rank by (rule distinct_upto)
  show "set by_rank = set (cards FrenchDeck_init)"
    by (rule set_by_rank)
  show "length by_rank = length (cards FrenchDeck_init)"
    unfolding length_by_rank length_cards_init by (rule refl)
qed

lemma sorted_deck_init: "sorted_deck spades_high FrenchDeck_init = Inr by_rank"
proof -
  have "sorted_list spades_high (cards FrenchDeck_init)
      = Inr (sort_key (projr \<circ> spades_high) (cards FrenchDeck_init))"
    by (rule sorted_list_total) (rule ballI, rule spades_high_defined)
  then show ?thesis
    by (simp only: sorted_deck_def call_sorted_eq sort_init fst_conv)
qed


lemma keys_init_set: "set (map spades_high (cards FrenchDeck_init)) = Inr ` {0..51}"
proof -
  have "set (map spades_high (cards FrenchDeck_init)) = set (map spades_high by_rank)"
    by (simp only: set_map set_by_rank)
  also have "\<dots> = Inr ` {0..51}"
    by (simp only: keys_by_rank set_map set_upto)
  finally show ?thesis .
qed

lemma keys_init_distinct: "distinct (map spades_high (cards FrenchDeck_init))"
proof (rule card_distinct)
  have "card (Inr ` {0..51::int} :: (error + int) set) = card {0..51::int}"
    by (rule card_image) simp
  then show "card (set (map spades_high (cards FrenchDeck_init)))
      = length (map spades_high (cards FrenchDeck_init))"
    by (simp add: keys_init_set length_cards_init del: set_map)
qed

text \<open>
  Claim C10: \<open>spades_high\<close> is the rank's position times 4 plus the suit's value, a value
  among 0, 1, 2, 3; on the 52 cards of the deck, which are distinct, it takes 52 distinct
  values, exactly the integers from 0 to 51. Sorting the deck by it gives the cards with
  the keys 0, 1, ..., 51 in this order, strictly increasing, from the 2 of clubs to the ace
  of spades.
\<close>

theorem spades_high_strict_order:
  "(j < length ranks \<and> map_of suit_vals s = Some v \<longrightarrow>
      spades_high (Card (ranks ! j) s) = Inr (int j * 4 + v) \<and> v \<in> {0, 1, 2, 3}) \<and>
   set (map spades_high (cards FrenchDeck_init)) = Inr ` {0..51} \<and>
   distinct (map spades_high (cards FrenchDeck_init)) \<and>
   distinct (cards FrenchDeck_init) \<and>
   sorted_deck spades_high FrenchDeck_init = Inr by_rank \<and>
   map spades_high by_rank = map Inr [0..51] \<and>
   sorted_wrt (<) (map (projr \<circ> spades_high) by_rank) \<and>
   hd by_rank = Card ''2'' ''clubs'' \<and> last by_rank = Card ''A'' ''spades''"
proof -
  have formula: "j < length ranks \<and> map_of suit_vals s = Some v \<longrightarrow>
      spades_high (Card (ranks ! j) s) = Inr (int j * 4 + v) \<and> v \<in> {0, 1, 2, 3}"
  proof (intro impI, elim conjE)
    assume j: "j < length ranks" and v: "map_of suit_vals s = Some v"
    from j have "index ranks (ranks ! j) = Inr (int j)"
      by (rule index_nth [OF distinct_ranks])
    moreover from v have "v \<in> {0, 1, 2, 3}"
      by (auto simp: suit_vals_def split: if_splits)
    ultimately show "spades_high (Card (ranks ! j) s) = Inr (int j * 4 + v) \<and> v \<in> {0, 1, 2, 3}"
      using v by (simp add: spades_high_def len_def suit_vals_def)
  qed
  have d: "distinct (cards FrenchDeck_init)"
    using keys_init_distinct by (simp only: distinct_map)
  have strict: "sorted_wrt (<) (map (projr \<circ> spades_high) by_rank)"
    by (simp only: numeric_keys_by_rank strict_sorted_iff sorted_upto distinct_upto)
  have ends: "hd by_rank = Card ''2'' ''clubs''" "last by_rank = Card ''A'' ''spades''"
    by (simp_all add: ranks_eq)
  show ?thesis
    by (intro conjI formula keys_init_set keys_init_distinct d sorted_deck_init keys_by_rank
          strict ends)
qed

theorem spades_high_strict_order_witness:
  "(12::nat) < length ranks \<and> map_of suit_vals ''spades'' = Some 3 \<and>
   spades_high (Card ''A'' ''spades'') = Inr 51 \<and>
   spades_high (Card ''2'' ''clubs'') = Inr 0"
  using spades_high_strict_order [of 12 "''spades''" 3, THEN conjunct1]
    spades_high_strict_order [of 0 "''clubs''" 0, THEN conjunct1]
  by (simp add: ranks_eq suit_vals_def)

subsection \<open>\<open>repr\<close> determines the card\<close>

lemma hexdigit_inj: "a < 16 \<Longrightarrow> b < 16 \<Longrightarrow> hexdigit a = hexdigit b \<Longrightarrow> a = b"
proof -
  assume "a < 16" "b < 16" "hexdigit a = hexdigit b"
  moreover have "distinct ''0123456789abcdef''" by simp
  ultimately show "a = b"
    by (simp only: hexdigit_def) (auto simp: nth_eq_iff_index_eq simp del: distinct.simps)
qed

lemma hex_pair_inj:
  assumes "hexdigit (of_char c div 16) = hexdigit (of_char c' div 16)"
    and "hexdigit (of_char c mod 16) = hexdigit (of_char c' mod 16)"
  shows "c = c'"
proof -
  let ?n = "of_char c :: nat" and ?m = "of_char c' :: nat"
  have "?n div 16 < 16" "?m div 16 < 16"
    by (rule less_mult_imp_div_less, simp)+
  with assms(1) have "?n div 16 = ?m div 16" by (intro hexdigit_inj)
  moreover from assms(2) have "?n mod 16 = ?m mod 16" by (intro hexdigit_inj) simp_all
  ultimately have "?n = ?m" by (metis div_mult_mod_eq)
  then show ?thesis by simp
qed

lemma repr_quote_cases: "repr_quote s = CHR 0x27 \<or> repr_quote s = CHR 0x22"
  by (simp add: repr_quote_def)

lemma repr_char_head:
  "q = CHR 0x27 \<or> q = CHR 0x22 \<Longrightarrow> \<exists>x xs. repr_char q c = x # xs \<and> x \<noteq> q"
  by (auto simp: repr_char_def)

lemma repr_char_cancel:
  assumes q: "q = CHR 0x27 \<or> q = CHR 0x22"
    and eq: "repr_char q c @ A = repr_char q c' @ B"
  shows "c = c' \<and> A = B"
  using q eq by (auto simp: repr_char_def split: if_splits dest: hex_pair_inj)


lemma repr_body_cancel:
  assumes q: "q = CHR 0x27 \<or> q = CHR 0x22"
  shows "concat (map (repr_char q) s) @ q # A = concat (map (repr_char q) s') @ q # B
    \<Longrightarrow> s = s' \<and> A = B"
proof (induction s arbitrary: s')
  case Nil
  show ?case
  proof (cases s')
    case Nil
    with Nil.prems show ?thesis by simp
  next
    case (Cons c cs)
    from repr_char_head [OF q, of c] obtain x xs where "repr_char q c = x # xs" "x \<noteq> q"
      by blast
    with Nil.prems Cons show ?thesis by simp
  qed
next
  case (Cons c cs)
  show ?case
  proof (cases s')
    case Nil
    from repr_char_head [OF q, of c] obtain x xs where "repr_char q c = x # xs" "x \<noteq> q"
      by blast
    with Cons.prems Nil show ?thesis by simp
  next
    case (Cons c' cs')
    with Cons.prems have "repr_char q c @ (concat (map (repr_char q) cs) @ q # A)
        = repr_char q c' @ (concat (map (repr_char q) cs') @ q # B)"
      by simp
    from repr_char_cancel [OF q this]
    have "c = c'" and "concat (map (repr_char q) cs) @ q # A = concat (map (repr_char q) cs') @ q # B"
      by simp_all
    with Cons.IH [of cs'] \<open>s' = c' # cs'\<close> show ?thesis by simp
  qed
qed

lemma repr_str_cancel:
  assumes "repr_str s @ A = repr_str s' @ B"
  shows "s = s' \<and> A = B"
proof -
  from assms have quote: "repr_quote s' = repr_quote s"
    by (simp add: repr_str_def Let_def)
  from assms have "concat (map (repr_char (repr_quote s)) s) @ repr_quote s # A
      = concat (map (repr_char (repr_quote s)) s') @ repr_quote s # B"
    by (simp add: repr_str_def Let_def quote)
  then show ?thesis
    by (rule repr_body_cancel [OF repr_quote_cases])
qed

lemma Card_repr_inj: "Card_repr c = Card_repr c' \<Longrightarrow> c = c'"
proof -
  assume "Card_repr c = Card_repr c'"
  then have "repr_str (rank c) @ ('', suit='' @ repr_str (suit c) @ '')'')
      = repr_str (rank c') @ ('', suit='' @ repr_str (suit c') @ '')'')"
    by (simp add: Card_repr_def)
  from repr_str_cancel [OF this] have r: "rank c = rank c'"
    and "repr_str (suit c) @ '')'' = repr_str (suit c') @ '')''"
    by simp_all
  from repr_str_cancel [OF this(2)] have "suit c = suit c'"
    by simp
  with r show "c = c'" by (simp add: Card.expand)
qed

text \<open>
  Claim C9: two cards have the same \<open>repr\<close> exactly when they have the same rank and the
  same suit, so cards that differ in rank or suit print differently. For example the 7 of
  hearts prints as \<open>Card(rank='7', suit='hearts')\<close>.
\<close>

theorem Card_repr_injective:
  "(Card_repr c = Card_repr c') = (rank c = rank c' \<and> suit c = suit c') \<and>
   (Card_repr c = Card_repr c') = (c = c') \<and>
   Card_repr (Card ''7'' ''hearts'')
     = ''Card(rank='' @ CHR 0x27 # ''7'' @ CHR 0x27 # '', suit='' @ CHR 0x27 # ''hearts''
         @ CHR 0x27 # '')''"
proof (intro conjI)
  show eq: "(Card_repr c = Card_repr c') = (c = c')"
    by (blast dest: Card_repr_inj)
  show "(Card_repr c = Card_repr c') = (rank c = rank c' \<and> suit c = suit c')"
    unfolding eq by (auto simp: Card.expand)
  show "Card_repr (Card ''7'' ''hearts'')
     = ''Card(rank='' @ CHR 0x27 # ''7'' @ CHR 0x27 # '', suit='' @ CHR 0x27 # ''hearts''
         @ CHR 0x27 # '')''"
    by (simp add: Card_repr_def repr_str_def repr_quote_def repr_char_def printable_def Let_def)
qed

end
